theory Spec2Isabelle
  imports Main
begin

section \<open>Outcomes of calls\<close>

text \<open>
  A Python call ends either by returning or by raising, and in both cases the objects it
  has already mutated keep their new contents. An outcome therefore carries the state
  reached in either case; only a normal return carries a value as well.
\<close>

datatype error = IndexError | KeyError | Exception string

datatype ('a, 's) outcome = Returned 'a 's | Raised error 's

fun state_of :: "('a, 's) outcome \<Rightarrow> 's" where
  "state_of (Returned v s) = s"
| "state_of (Raised e s) = s"

fun raised :: "('a, 's) outcome \<Rightarrow> bool" where
  "raised (Returned v s) = False"
| "raised (Raised e s) = True"

text \<open>
  \<open>xs[i]\<close> on a Python list: a negative index counts from the end, anything outside
  \<open>[-len, len)\<close> raises \<open>IndexError\<close>.
\<close>

definition getitem :: "'a list \<Rightarrow> int \<Rightarrow> error + 'a" where
  "getitem xs i =
     (let n = int (length xs)
      in if 0 \<le> i \<and> i < n then Inr (xs ! nat i)
         else if - n \<le> i \<and> i < 0 then Inr (xs ! nat (n + i))
         else Inl IndexError)"

section \<open>widgets.py: ListElement and List\<close>

text \<open>
  A callback is opaque code of the caller. It acts on the part of the program outside the
  list (the type \<open>'w\<close>: the menu stack, the content area, ...) and may raise. The
  callbacks of this repository (\<open>BooksList.select\<close>, \<open>BookChaptersList._select\<close>,
  \<open>ChapterSectionsList._select\<close>) build and push new widgets or render a section; none of
  them writes to the list that holds it, which is why \<open>'w\<close> is kept apart from the list.
\<close>

type_synonym 'w callback = "'w \<Rightarrow> (unit, 'w) outcome"

record 'w ListElement =
  elem_text :: string
  on_select :: "'w callback option"
  on_focus :: "'w callback option"

datatype Point = Point (x: int) (y: int)

text \<open>A title is formatted text: the template of an \<open>HTML(...)\<close> and the arguments of \<open>format\<close>.\<close>

datatype HTML = HTML string "string list"

text \<open>
  The fields of class \<open>List\<close> that its methods read or write. The prompt_toolkit
  controls and windows built in \<open>__init__\<close> hold no state of their own: they call back
  into \<open>_get_text\<close>, \<open>cursor\<close> and the key bindings.
\<close>

record 'w List_obj =
  index :: int
  selected :: int
  elements :: "'w ListElement list"
  title :: HTML
  allow_select :: bool
  cursor :: Point

definition List_init :: "HTML \<Rightarrow> 'w ListElement list \<Rightarrow> bool \<Rightarrow> 'w List_obj" where
  "List_init ttl elems allow =
     \<lparr>index = 0, selected = - 1, elements = elems, title = ttl,
      allow_select = allow, cursor = Point 0 0\<rparr>"

text \<open>The control's \<open>get_cursor_position=lambda: self.cursor\<close>.\<close>

definition get_cursor_position :: "'w List_obj \<Rightarrow> Point" where
  "get_cursor_position L = cursor L"

definition current_element :: "'w List_obj \<Rightarrow> error + 'w ListElement" where
  "current_element L = getitem (elements L) (index L)"

text \<open>\<open>if cb: cb()\<close> for an optional callback, with the list as it stands.\<close>

definition call_if_set ::
  "'w callback option \<Rightarrow> 'w List_obj \<Rightarrow> 'w \<Rightarrow> (unit, 'w List_obj \<times> 'w) outcome" where
  "call_if_set cb L w =
     (case cb of
        None \<Rightarrow> Returned () (L, w)
      | Some f \<Rightarrow>
          (case f w of
             Returned u w' \<Rightarrow> Returned () (L, w')
           | Raised e w' \<Rightarrow> Raised e (L, w')))"

definition List_select ::
  "int \<Rightarrow> 'w List_obj \<Rightarrow> 'w \<Rightarrow> (unit, 'w List_obj \<times> 'w) outcome" where
  "List_select i L w =
     (let L1 = L\<lparr>index := i\<rparr>;
          L2 = L1\<lparr>selected := index L1\<rparr>;
          L3 = L2\<lparr>cursor := Point 0 (index L2)\<rparr>
      in case current_element L3 of
           Inl e \<Rightarrow> Raised e (L3, w)
         | Inr element \<Rightarrow> call_if_set (on_select element) L3 w)"

definition List_focus ::
  "int \<Rightarrow> 'w List_obj \<Rightarrow> 'w \<Rightarrow> (unit, 'w List_obj \<times> 'w) outcome" where
  "List_focus i L w =
     (let L1 = L\<lparr>index := i\<rparr>;
          L2 = L1\<lparr>cursor := Point 0 (index L1)\<rparr>
      in case current_element L2 of
           Inl e \<Rightarrow> Raised e (L2, w)
         | Inr element \<Rightarrow> call_if_set (on_focus element) L2 w)"

definition List_previous :: "'w List_obj \<Rightarrow> 'w \<Rightarrow> (unit, 'w List_obj \<times> 'w) outcome" where
  "List_previous L w = List_focus (max (index L - 1) 0) L w"

definition List_next :: "'w List_obj \<Rightarrow> 'w \<Rightarrow> (unit, 'w List_obj \<times> 'w) outcome" where
  "List_next L w = List_focus (min (index L + 1) (int (length (elements L)) - 1)) L w"

text \<open>
  \<open>str.replace("\n", " ")\<close> on the row text; \<open>CHR 0x0A\<close> is the line feed.
\<close>

definition newline :: char where
  "newline = CHR 0x0A"

definition replace_newlines :: "string \<Rightarrow> string" where
  "replace_newlines s = map (\<lambda>c. if c = newline then CHR '' '' else c) s"

datatype MouseEventType = MOUSE_UP | MOUSE_DOWN | SCROLL_UP | SCROLL_DOWN | MOUSE_MOVE

definition List_mouse_select ::
  "int \<Rightarrow> MouseEventType \<Rightarrow> 'w List_obj \<Rightarrow> 'w \<Rightarrow> (unit, 'w List_obj \<times> 'w) outcome" where
  "List_mouse_select i event_type L w =
     (if event_type = MOUSE_UP then List_select i L w else Returned () (L, w))"

text \<open>
  A fragment of \<open>_get_text\<close> is the triple (style, text, handler); the handler
  \<open>partial(self.mouse_select, i)\<close> is the function still waiting for the mouse event
  and acting on the list as it is when the event arrives.
\<close>

type_synonym 'w handler =
  "MouseEventType \<Rightarrow> 'w List_obj \<Rightarrow> 'w \<Rightarrow> (unit, 'w List_obj \<times> 'w) outcome"

type_synonym 'w fragment = "string \<times> string \<times> 'w handler"

definition frag_style :: "'w fragment \<Rightarrow> string" where
  "frag_style fr = fst fr"

definition frag_text :: "'w fragment \<Rightarrow> string" where
  "frag_text fr = fst (snd fr)"

definition frag_handler :: "'w fragment \<Rightarrow> 'w handler" where
  "frag_handler fr = snd (snd fr)"

definition List_get_text_row :: "'w List_obj \<Rightarrow> nat \<times> 'w ListElement \<Rightarrow> 'w fragment" where
  "List_get_text_row L = (\<lambda>(i, element).
     (let t0 = replace_newlines (elem_text element);
          t1 = (if int i < int (length (elements L)) - 1 then t0 @ [newline] else t0);
          style = (if int i = index L then ''class:list-item.focused'' else [])
      in (style, t1, List_mouse_select (int i))))"

definition List_get_text :: "'w List_obj \<Rightarrow> 'w fragment list" where
  "List_get_text L = map (List_get_text_row L) (enumerate 0 (elements L))"

text \<open>
  The key bindings of \<open>get_key_bindings\<close>. \<open>focus_previous\<close> and \<open>focus_next\<close> are
  prompt_toolkit's: they move the keyboard focus to another control of the layout, which
  is outside the list, so they are taken as actions on the world.
\<close>

datatype Keys = Up | BackTab | Down | Tab | Space | Enter

definition outside ::
  "'w List_obj \<Rightarrow> (unit, 'w) outcome \<Rightarrow> (unit, 'w List_obj \<times> 'w) outcome" where
  "outside L r =
     (case r of Returned u w' \<Rightarrow> Returned () (L, w') | Raised e w' \<Rightarrow> Raised e (L, w'))"

definition List_key ::
  "'w callback \<Rightarrow> 'w callback \<Rightarrow> Keys \<Rightarrow> 'w List_obj \<Rightarrow> 'w \<Rightarrow>
   (unit, 'w List_obj \<times> 'w) outcome" where
  "List_key focus_previous focus_next k L w =
     (case k of
        Up \<Rightarrow> List_previous L w
      | BackTab \<Rightarrow>
          (if index L \<le> 0 then outside L (focus_previous w) else List_previous L w)
      | Down \<Rightarrow> List_next L w
      | Tab \<Rightarrow>
          (if index L \<ge> int (length (elements L)) - 1 then outside L (focus_next w)
           else List_next L w)
      | Space \<Rightarrow> List_select (index L) L w
      | Enter \<Rightarrow> List_select (index L) L w)"

text \<open>
  A sequence of calls on the same list object, as the event loop makes them: each call
  starts from the state the previous one left, whether that one returned or raised.
  \<open>calls n f\<close> makes the same call \<open>n\<close> times, \<open>presses\<close> delivers a sequence of keys.
\<close>

fun calls ::
  "nat \<Rightarrow> ('l \<Rightarrow> 'w \<Rightarrow> (unit, 'l \<times> 'w) outcome) \<Rightarrow> 'l \<times> 'w \<Rightarrow> 'l \<times> 'w" where
  "calls 0 f s = s"
| "calls (Suc n) f s = calls n f (state_of (f (fst s) (snd s)))"

fun presses ::
  "'w callback \<Rightarrow> 'w callback \<Rightarrow> Keys list \<Rightarrow> 'w List_obj \<times> 'w \<Rightarrow> 'w List_obj \<times> 'w" where
  "presses focus_previous focus_next [] s = s"
| "presses focus_previous focus_next (k # ks) s =
     presses focus_previous focus_next ks
       (state_of (List_key focus_previous focus_next k (fst s) (snd s)))"

section \<open>widgets.py: ChapterSectionsList\<close>

text \<open>
  The chapter is the parser's object: \<open>chapter.toc(depth=1)\<close> is its list of
  (section, depth) pairs, and a section is read only for \<open>options.title\<close>.
  \<open>tui.content.render_section\<close> belongs to the application object and is a parameter.
\<close>

record Section =
  section_title :: string

record Chapter =
  book_title :: string
  chapter_title :: string
  chapter_toc :: "(Section \<times> nat) list"

record 'w ChapterSectionsList =
  chapter_index :: int
  of_chapter :: Chapter
  toc :: "(Section \<times> nat) list"
  container :: "'w List_obj"

definition ChapterSectionsList_get_title :: "Chapter \<Rightarrow> HTML" where
  "ChapterSectionsList_get_title c =
     HTML ''<title>{}</title> <separator>></separator> <title>{}</title>''
       [book_title c, chapter_title c]"

definition ChapterSectionsList_get_elements ::
  "(Section \<Rightarrow> 'w callback) \<Rightarrow> (Section \<times> nat) list \<Rightarrow> 'w ListElement list" where
  "ChapterSectionsList_get_elements render_section t =
     map (\<lambda>(section, d).
            \<lparr>elem_text = section_title section,
             on_select = Some (render_section section),
             on_focus = None\<rparr>) t"

text \<open>
  \<open>__init__\<close> builds the list with \<open>allow_select = True\<close> and then calls
  \<open>self.container.select(0)\<close>; when that raises, so does the constructor, and no view
  comes into being.
\<close>

definition ChapterSectionsList_init ::
  "(Section \<Rightarrow> 'w callback) \<Rightarrow> Chapter \<Rightarrow> int \<Rightarrow> 'w \<Rightarrow>
   ('w ChapterSectionsList, 'w) outcome" where
  "ChapterSectionsList_init render_section c i w =
     (let t = chapter_toc c;
          l = List_init (ChapterSectionsList_get_title c)
                (ChapterSectionsList_get_elements render_section t) True
      in case List_select 0 l w of
           Returned u (l', w') \<Rightarrow>
             Returned \<lparr>chapter_index = i, of_chapter = c, toc = t, container = l'\<rparr> w'
         | Raised e (l', w') \<Rightarrow> Raised e w')"

section \<open>ui.py: ContentArea.get_label\<close>

text \<open>
  The style table \<open>styles = themes["default"]\<close>. A node of the parsed section is read for
  \<open>tagname\<close> and \<open>text()\<close>. \<open>to_formatted_text\<close> is prompt_toolkit's and stays a
  parameter \<open>tft\<close> (text first, style second); the result is the list
  \<open>formated_content\<close> handed to \<open>merge_formatted_text\<close>.
\<close>

definition styles :: "string \<rightharpoonup> string" where
  "styles = map_of
     [(''Text'', ''#fff''),
      (''Strong'', ''#fff bold''),
      (''Emphasis'', ''#fff italic''),
      (''Literal'', ''#fff''),
      (''Paragraph'', ''#fff''),
      (''CodeBlock'', ''#fff''),
      (''Prompt'', ''bg:#999999 #fff''),
      (''TestBlock'', ''#fff''),
      (''Section'', ''#fff''),
      (''Separator'', ''#fff'')]"

record Node =
  tagname :: string
  node_text :: string

fun get_label_loop ::
  "(string \<Rightarrow> string \<Rightarrow> 'f) \<Rightarrow> Node list \<Rightarrow> 'f list \<Rightarrow> error + 'f list" where
  "get_label_loop tft [] formated_content = Inr formated_content"
| "get_label_loop tft (node # rest) formated_content =
     (case styles (tagname node) of
        None \<Rightarrow> Inl KeyError
      | Some st \<Rightarrow>
          get_label_loop tft rest
            (if tagname node = ''Paragraph''
             then (formated_content @ [tft (node_text node) st]) @ [tft [newline] []]
             else formated_content @ [tft (node_text node) st]))"

definition get_label :: "(string \<Rightarrow> string \<Rightarrow> 'f) \<Rightarrow> Node list \<Rightarrow> error + 'f list" where
  "get_label tft children = get_label_loop tft children []"

section \<open>Example list\<close>

text \<open>
  Three rows \<open>A\<close>, \<open>B\<close>, \<open>C\<close> over a world that counts callback invocations: the first
  component counts \<open>on_select\<close> calls, the second \<open>on_focus\<close> calls.
\<close>

definition count_select :: "(nat \<times> nat) callback" where
  "count_select w = Returned () (Suc (fst w), snd w)"

definition count_focus :: "(nat \<times> nat) callback" where
  "count_focus w = Returned () (fst w, Suc (snd w))"

definition row :: "string \<Rightarrow> (nat \<times> nat) ListElement" where
  "row s = \<lparr>elem_text = s, on_select = Some count_select, on_focus = Some count_focus\<rparr>"

definition abc :: "(nat \<times> nat) List_obj" where
  "abc = List_init (HTML ''<title>{}</title>'' [''Letters'']) [row ''A'', row ''B'', row ''C''] True"

text \<open>
  A chapter with two sections, and a \<open>render_section\<close> that logs the title of each
  section it is asked to render.
\<close>

definition example_chapter :: Chapter where
  "example_chapter =
     \<lparr>book_title = ''Book'', chapter_title = ''Intro'',
      chapter_toc = [(\<lparr>section_title = ''One''\<rparr>, 1), (\<lparr>section_title = ''Two''\<rparr>, 1)]\<rparr>"

definition render_log :: "Section \<Rightarrow> (string list) callback" where
  "render_log s w = Returned () (w @ [section_title s])"

text \<open>Three nodes: a paragraph, a literal, and one whose tag the style table lacks.\<close>

definition para :: Node where
  "para = \<lparr>tagname = ''Paragraph'', node_text = ''Hello.''\<rparr>"

definition lit :: Node where
  "lit = \<lparr>tagname = ''Literal'', node_text = ''x = 1''\<rparr>"


text \<open>
  What one pass of the loop body of \<open>get_label\<close> appends for a node whose tag is in the
  table; used to state the loop's result in closed form.
\<close>

definition node_spans :: "(string \<Rightarrow> string \<Rightarrow> 'f) \<Rightarrow> Node \<Rightarrow> 'f list" where
  "node_spans tft node =
     (if tagname node = ''Paragraph''
      then [tft (node_text node) (the (styles (tagname node))), tft [newline] []]
      else [tft (node_text node) (the (styles (tagname node)))])"

section \<open>Properties of List\<close>

lemma getitem_in_range:
  "0 \<le> i \<Longrightarrow> i < int (length xs) \<Longrightarrow> getitem xs i = Inr (xs ! nat i)"
  by (simp add: getitem_def)

lemma call_if_set_list [simp]: "fst (state_of (call_if_set cb L w)) = L"
  by (simp add: call_if_set_def split: option.splits outcome.splits)

lemma call_if_set_Some:
  "snd (state_of (call_if_set (Some f) L w)) = state_of (f w) \<and>
   raised (call_if_set (Some f) L w) = raised (f w)"
  by (simp add: call_if_set_def split: outcome.splits)

text \<open>
  The list after \<open>select(i)\<close> and after \<open>focus(i)\<close>, for any \<open>i\<close> and whatever the
  outcome: the assignments come first in both methods, before the element is looked up.
\<close>

lemma select_list_state:
  "fst (state_of (List_select i L w)) = L\<lparr>index := i, selected := i, cursor := Point 0 i\<rparr>"
  by (simp add: List_select_def Let_def split: sum.splits)

lemma focus_list_state:
  "fst (state_of (List_focus i L w)) = L\<lparr>index := i, cursor := Point 0 i\<rparr>"
  by (simp add: List_focus_def Let_def split: sum.splits)

lemma select_in_range:
  "0 \<le> i \<Longrightarrow> i < int (length (elements L)) \<Longrightarrow>
   List_select i L w =
     call_if_set (on_select (elements L ! nat i))
       (L\<lparr>index := i, selected := i, cursor := Point 0 i\<rparr>) w"
  by (simp add: List_select_def Let_def current_element_def getitem_in_range)

lemma focus_in_range:
  "0 \<le> i \<Longrightarrow> i < int (length (elements L)) \<Longrightarrow>
   List_focus i L w =
     call_if_set (on_focus (elements L ! nat i)) (L\<lparr>index := i, cursor := Point 0 i\<rparr>) w"
  by (simp add: List_focus_def Let_def current_element_def getitem_in_range)

text \<open>
  C1. For a valid element index \<open>i\<close>, \<open>select(i)\<close> leaves the list with \<open>index = i\<close> and
  \<open>selected = i\<close>, whether or not the callback raises. When element \<open>i\<close> has an
  \<open>on_select\<close> callback \<open>f\<close>, the world after the call is the world after one run of
  \<open>f\<close>, and the call raises exactly when \<open>f\<close> does; when it has none, the call returns
  with the world untouched.
\<close>

theorem select_sets_both_and_calls_once:
  assumes "0 \<le> i" and "i < int (length (elements L))"
  shows "index (fst (state_of (List_select i L w))) = i \<and>
         selected (fst (state_of (List_select i L w))) = i \<and>
         (case on_select (elements L ! nat i) of
            Some f \<Rightarrow>
              snd (state_of (List_select i L w)) = state_of (f w) \<and>
              raised (List_select i L w) = raised (f w)
          | None \<Rightarrow>
              snd (state_of (List_select i L w)) = w \<and> \<not> raised (List_select i L w))"
proof -
  have "snd (state_of (List_select i L w)) = w \<and> \<not> raised (List_select i L w)"
    if "on_select (elements L ! nat i) = None"
    using that assms by (simp add: select_in_range call_if_set_def)
  moreover have "snd (state_of (List_select i L w)) = state_of (f w) \<and>
      raised (List_select i L w) = raised (f w)"
    if "on_select (elements L ! nat i) = Some f" for f
    using that assms by (simp add: select_in_range call_if_set_Some)
  ultimately show ?thesis
    by (simp add: select_list_state split: option.splits)
qed

theorem select_sets_both_and_calls_once_witness:
  "index (fst (state_of (List_select 1 abc (0, 0)))) = 1 \<and>
   selected (fst (state_of (List_select 1 abc (0, 0)))) = 1 \<and>
   snd (state_of (List_select 1 abc (0, 0))) = (1, 0) \<and>
   \<not> raised (List_select 1 abc (0, 0))"
  using select_sets_both_and_calls_once [of 1 abc "(0, 0)"]
  by (simp add: abc_def List_init_def row_def count_select_def)

lemma next_list_state:
  "fst (state_of (List_next L w)) =
     L\<lparr>index := min (index L + 1) (int (length (elements L)) - 1),
       cursor := Point 0 (min (index L + 1) (int (length (elements L)) - 1))\<rparr>"
  by (simp add: List_next_def focus_list_state)

lemma previous_list_state:
  "fst (state_of (List_previous L w)) =
     L\<lparr>index := max (index L - 1) 0, cursor := Point 0 (max (index L - 1) 0)\<rparr>"
  by (simp add: List_previous_def focus_list_state)

text \<open>
  C2. \<open>focus(i)\<close> does not clamp. On the three-row list, \<open>focus(-1)\<close> returns (Python
  reads \<open>elements[-1]\<close>, the last row) and leaves \<open>index = -1\<close>; \<open>focus(7)\<close> raises
  \<open>IndexError\<close> and leaves \<open>index = 7\<close>.
\<close>

theorem focus_does_not_clamp_counterexample:
  "\<not> raised (List_focus (- 1) abc (0, 0)) \<and>
   index (fst (state_of (List_focus (- 1) abc (0, 0)))) = - 1 \<and>
   length (elements abc) = 3 \<and>
   raised (List_focus 7 abc (0, 0)) \<and>
   index (fst (state_of (List_focus 7 abc (0, 0)))) = 7"
  by (simp add: abc_def List_init_def List_focus_def current_element_def getitem_def
        call_if_set_def row_def count_focus_def)

text \<open>
  C2, as the code has it. \<open>focus(i)\<close> stores \<open>i\<close> as it is given in \<open>index\<close> and in the
  cursor row. When \<open>i\<close> already lies in \<open>[0, len-1]\<close> the call runs element \<open>i\<close>'s
  \<open>on_focus\<close> once if it is set (and raises exactly when that callback does), and
  returns with the world untouched if it is not. No clamp is applied: the index after
  the call is \<open>i\<close> itself, so it lies in \<open>[0, len-1]\<close> only when \<open>i\<close> does.
\<close>

theorem focus_stores_index:
  "index (fst (state_of (List_focus i L w))) = i \<and>
   cursor (fst (state_of (List_focus i L w))) = Point 0 i \<and>
   (0 \<le> i \<and> i < int (length (elements L)) \<longrightarrow>
      (case on_focus (elements L ! nat i) of
         Some f \<Rightarrow>
           snd (state_of (List_focus i L w)) = state_of (f w) \<and>
           raised (List_focus i L w) = raised (f w)
       | None \<Rightarrow> snd (state_of (List_focus i L w)) = w \<and> \<not> raised (List_focus i L w)))"
proof -
  have "snd (state_of (List_focus i L w)) = w \<and> \<not> raised (List_focus i L w)"
    if "on_focus (elements L ! nat i) = None" "0 \<le> i" "i < int (length (elements L))"
    using that by (simp add: focus_in_range call_if_set_def)
  moreover have "snd (state_of (List_focus i L w)) = state_of (f w) \<and>
      raised (List_focus i L w) = raised (f w)"
    if "on_focus (elements L ! nat i) = Some f" "0 \<le> i" "i < int (length (elements L))" for f
    using that by (simp add: focus_in_range call_if_set_Some)
  ultimately show ?thesis
    by (simp add: focus_list_state split: option.splits)
qed

theorem focus_stores_index_witness:
  "index (fst (state_of (List_focus 2 abc (0, 0)))) = 2 \<and>
   cursor (fst (state_of (List_focus 2 abc (0, 0)))) = Point 0 2 \<and>
   (0::int) \<le> 2 \<and> 2 < int (length (elements abc)) \<and>
   snd (state_of (List_focus 2 abc (0, 0))) = (0, 1) \<and>
   \<not> raised (List_focus 2 abc (0, 0))"
  using focus_stores_index [of 2 abc "(0, 0)"]
  by (simp add: abc_def List_init_def row_def count_focus_def)

text \<open>
  The focus index after \<open>k\<close> calls of \<open>next\<close>, from any index not beyond the last row.
\<close>

lemma calls_next_index:
  "index (fst s) \<le> int (length (elements (fst s))) - 1 \<Longrightarrow>
   index (fst (calls k List_next s)) =
     min (index (fst s) + int k) (int (length (elements (fst s))) - 1)"
proof (induction k arbitrary: s)
  case 0
  then show ?case by simp
next
  case (Suc k)
  let ?s' = "state_of (List_next (fst s) (snd s))"
  have e: "elements (fst ?s') = elements (fst s)"
    by (simp add: next_list_state)
  have i: "index (fst ?s') = min (index (fst s) + 1) (int (length (elements (fst s))) - 1)"
    by (simp add: next_list_state)
  have "index (fst ?s') \<le> int (length (elements (fst ?s'))) - 1"
    using Suc.prems by (simp add: e i)
  from Suc.IH [OF this] show ?case
    using Suc.prems by (simp add: e i)
qed

text \<open>
  C3. On a list of \<open>N \<ge> 1\<close> rows with the focus on row 0, \<open>N\<close> calls of \<open>next\<close> end
  on row \<open>N - 1\<close>, no number of calls goes beyond row \<open>N - 1\<close>, and \<open>previous\<close> leaves
  the focus on row 0.
\<close>

theorem movement_is_clamped:
  assumes "elements L \<noteq> []" and "index L = 0"
  shows "index (fst (calls (length (elements L)) List_next (L, w))) =
           int (length (elements L)) - 1 \<and>
         (\<forall>k. index (fst (calls k List_next (L, w))) \<le> int (length (elements L)) - 1) \<and>
         index (fst (state_of (List_previous L w))) = index L"
proof -
  have le: "index (fst (L, w)) \<le> int (length (elements (fst (L, w)))) - 1"
    using assms by (cases "elements L") simp_all
  show ?thesis
    using assms calls_next_index [OF le] by (auto simp: previous_list_state)
qed

theorem movement_is_clamped_witness:
  "index (fst (calls 3 List_next (abc, (0, 0)))) = 2 \<and>
   index (fst (calls 7 List_next (abc, (0, 0)))) \<le> 2 \<and>
   index (fst (state_of (List_previous abc (0, 0)))) = 0"
proof -
  have a: "elements abc \<noteq> []" and b: "index abc = 0" and c: "length (elements abc) = 3"
    by (simp_all add: abc_def List_init_def)
  from movement_is_clamped [OF a b, of "(0, 0)"] show ?thesis
    by (simp add: c b)
qed

text \<open>
  C5. A failing call does not leave the list as it was: \<open>select(5)\<close> on the three-row
  list raises \<open>IndexError\<close>, and the list it leaves has \<open>index = 5\<close>, \<open>selected = 5\<close>
  and the cursor on row 5, where it had 0, -1 and row 0 before.
\<close>

theorem failed_call_keeps_new_index_counterexample:
  "raised (List_select 5 abc (0, 0)) \<and>
   index abc = 0 \<and> selected abc = - 1 \<and> cursor abc = Point 0 0 \<and>
   index (fst (state_of (List_select 5 abc (0, 0)))) = 5 \<and>
   selected (fst (state_of (List_select 5 abc (0, 0)))) = 5 \<and>
   cursor (fst (state_of (List_select 5 abc (0, 0)))) = Point 0 5"
  by (simp add: abc_def List_init_def List_select_def current_element_def getitem_def)

text \<open>
  C5, as the code has it. When \<open>select(i)\<close> raises, the list holds \<open>index = i\<close>,
  \<open>selected = i\<close> and the cursor on row \<open>i\<close>; when \<open>focus(i)\<close> raises, it holds
  \<open>index = i\<close> and the cursor on row \<open>i\<close>. Every other field, the elements among them,
  is as before the call. Nothing is rolled back.
\<close>

theorem failed_call_keeps_new_index:
  "(raised (List_select i L w) \<longrightarrow>
      fst (state_of (List_select i L w)) =
        L\<lparr>index := i, selected := i, cursor := Point 0 i\<rparr>) \<and>
   (raised (List_focus i L w) \<longrightarrow>
      fst (state_of (List_focus i L w)) = L\<lparr>index := i, cursor := Point 0 i\<rparr>)"
  by (simp add: select_list_state focus_list_state)

theorem failed_call_keeps_new_index_witness:
  "raised (List_select 5 abc (0, 0)) \<and>
   fst (state_of (List_select 5 abc (0, 0))) =
     abc\<lparr>index := 5, selected := 5, cursor := Point 0 5\<rparr> \<and>
   raised (List_focus 5 abc (0, 0)) \<and>
   fst (state_of (List_focus 5 abc (0, 0))) = abc\<lparr>index := 5, cursor := Point 0 5\<rparr>"
proof -
  have r: "raised (List_select 5 abc (0, 0))" "raised (List_focus 5 abc (0, 0))"
    by (simp_all add: abc_def List_init_def List_select_def List_focus_def
          current_element_def getitem_def)
  from failed_call_keeps_new_index [of 5 abc "(0, 0)"] r show ?thesis
    by simp
qed

text \<open>
  C10. After \<open>focus(i)\<close>, \<open>select(i)\<close>, \<open>previous()\<close> or \<open>next()\<close>, whether the call
  returned or raised, the cursor the control reads is column 0 of the row \<open>index\<close>.
\<close>

theorem cursor_tracks_focus:
  "get_cursor_position (fst (state_of (List_focus i L w))) =
     Point 0 (index (fst (state_of (List_focus i L w)))) \<and>
   get_cursor_position (fst (state_of (List_select i L w))) =
     Point 0 (index (fst (state_of (List_select i L w)))) \<and>
   get_cursor_position (fst (state_of (List_previous L w))) =
     Point 0 (index (fst (state_of (List_previous L w)))) \<and>
   get_cursor_position (fst (state_of (List_next L w))) =
     Point 0 (index (fst (state_of (List_next L w))))"
  by (simp add: get_cursor_position_def focus_list_state select_list_state
        previous_list_state next_list_state)

theorem cursor_tracks_focus_witness:
  "get_cursor_position (fst (state_of (List_next abc (0, 0)))) = Point 0 1 \<and>
   index (fst (state_of (List_next abc (0, 0)))) = 1"
  using cursor_tracks_focus [of 0 abc "(0, 0)"]
  by (simp add: next_list_state abc_def List_init_def)

section \<open>Properties of ChapterSectionsList\<close>

lemma get_elements_nth0:
  "t \<noteq> [] \<Longrightarrow>
   on_select (ChapterSectionsList_get_elements rs t ! 0) = Some (rs (fst (hd t)))"
  by (cases t) (auto simp: ChapterSectionsList_get_elements_def)

lemma get_elements_length [simp]:
  "length (ChapterSectionsList_get_elements rs t) = length t"
  by (simp add: ChapterSectionsList_get_elements_def)

text \<open>
  C6. Over a chapter with at least one table-of-contents entry, every view the constructor
  returns has \<open>selected = 0\<close> and \<open>index = 0\<close> in its list and \<open>allow_select\<close> set,
  with no call from outside. The constructor returns exactly when rendering the first
  section returns, and leaves the world that rendering left.
\<close>

theorem sections_view_commits_first:
  assumes "chapter_toc c \<noteq> []"
  shows "(\<forall>v w'. ChapterSectionsList_init rs c i w = Returned v w' \<longrightarrow>
            selected (container v) = 0 \<and> index (container v) = 0 \<and>
            allow_select (container v)) \<and>
         raised (ChapterSectionsList_init rs c i w) =
           raised (rs (fst (hd (chapter_toc c))) w) \<and>
         state_of (ChapterSectionsList_init rs c i w) =
           state_of (rs (fst (hd (chapter_toc c))) w)"
proof -
  let ?l = "List_init (ChapterSectionsList_get_title c)
              (ChapterSectionsList_get_elements rs (chapter_toc c)) True"
  have len: "0 < int (length (elements ?l))"
    using assms by (simp add: List_init_def)
  have os: "on_select (elements ?l ! nat 0) = Some (rs (fst (hd (chapter_toc c))))"
    using assms by (simp add: List_init_def get_elements_nth0)
  have sel: "List_select 0 ?l w =
      call_if_set (Some (rs (fst (hd (chapter_toc c)))))
        (?l\<lparr>index := 0, selected := 0, cursor := Point 0 0\<rparr>) w"
    using select_in_range [of 0 ?l w] len os by simp
  show ?thesis
    unfolding ChapterSectionsList_init_def Let_def sel
    by (auto simp: call_if_set_def List_init_def split: outcome.splits)
qed

theorem sections_view_commits_first_witness:
  "chapter_toc example_chapter \<noteq> [] \<and>
   (\<exists>v. ChapterSectionsList_init render_log example_chapter 1 [] = Returned v [''One''] \<and>
     selected (container v) = 0 \<and> allow_select (container v))"
proof -
  have a: "chapter_toc example_chapter \<noteq> []"
    by (simp add: example_chapter_def)
  have r: "\<not> raised (ChapterSectionsList_init render_log example_chapter 1 [])"
    "state_of (ChapterSectionsList_init render_log example_chapter 1 []) = [''One'']"
    using sections_view_commits_first [OF a, of render_log 1 "[]"]
    by (simp_all add: example_chapter_def render_log_def)
  then obtain v where
    "ChapterSectionsList_init render_log example_chapter 1 [] = Returned v [''One'']"
    by (cases "ChapterSectionsList_init render_log example_chapter 1 []") simp_all
  with sections_view_commits_first [OF a, of render_log 1 "[]"] a show ?thesis
    by simp
qed

section \<open>Properties of the rendered rows and the mouse handler\<close>

lemma get_text_length [simp]: "length (List_get_text L) = length (elements L)"
  by (simp add: List_get_text_def)

lemma get_text_nth:
  "i < length (elements L) \<Longrightarrow>
   List_get_text L ! i = List_get_text_row L (i, elements L ! i)"
  by (simp add: List_get_text_def nth_enumerate_eq)

lemma get_text_handler:
  "i < length (elements L) \<Longrightarrow> frag_handler (List_get_text L ! i) = List_mouse_select (int i)"
  by (simp add: get_text_nth List_get_text_row_def frag_handler_def Let_def)

lemma get_text_text:
  "i < length (elements L) \<Longrightarrow>
   frag_text (List_get_text L ! i) =
     replace_newlines (elem_text (elements L ! i)) @
     (if i < length (elements L) - 1 then [newline] else [])"
  by (auto simp: get_text_nth List_get_text_row_def frag_text_def Let_def)

lemma count_replace_newlines [simp]: "count_list (replace_newlines s) newline = 0"
  by (induction s) (auto simp: replace_newlines_def newline_def)

lemma mouse_handler_select:
  "i < length (elements L) \<Longrightarrow>
   frag_handler (List_get_text L ! i) MOUSE_UP L' w = List_select (int i) L' w"
  by (simp add: get_text_handler List_mouse_select_def)

text \<open>
  C8. The handler that \<open>_get_text\<close> attaches to row \<open>i\<close>, given a mouse-up event, is
  \<open>select(i)\<close>: same outcome, same list, same world. On a list of rows \<open>A\<close>, \<open>B\<close>,
  \<open>C\<close> with the focus on row 0, a mouse-up on row 1 leaves the same list as the keys
  Down, Enter; when row 1 has no \<open>on_focus\<close> callback the world is the same too (with
  one, Down has run it and the mouse-up has not).
\<close>

theorem mouse_up_is_select:
  "(\<forall>i < length (elements L).
      frag_handler (List_get_text L ! i) MOUSE_UP L' w = List_select (int i) L' w) \<and>
   (map elem_text (elements L) = [''A'', ''B'', ''C''] \<and> index L = 0 \<longrightarrow>
      fst (state_of (frag_handler (List_get_text L ! 1) MOUSE_UP L w)) =
        fst (presses fp fn [Down, Enter] (L, w)) \<and>
      (on_focus (elements L ! 1) = None \<longrightarrow>
         state_of (frag_handler (List_get_text L ! 1) MOUSE_UP L w) =
           presses fp fn [Down, Enter] (L, w)))"
proof -
  have m: "frag_handler (List_get_text L ! i) MOUSE_UP L' w = List_select (int i) L' w"
    if "i < length (elements L)" for i
    using that by (rule mouse_handler_select)
  have s: "fst (state_of (frag_handler (List_get_text L ! 1) MOUSE_UP L w)) =
        fst (presses fp fn [Down, Enter] (L, w)) \<and>
      (on_focus (elements L ! 1) = None \<longrightarrow>
         state_of (frag_handler (List_get_text L ! 1) MOUSE_UP L w) =
           presses fp fn [Down, Enter] (L, w))"
    if abc: "map elem_text (elements L) = [''A'', ''B'', ''C'']" and i0: "index L = 0"
  proof -
    from abc have "length (map elem_text (elements L)) = 3" by simp
    then have len: "length (elements L) = 3" by simp
    let ?d = "state_of (List_next L w)"
    have d1: "fst ?d = L\<lparr>index := 1, cursor := Point 0 1\<rparr>"
      by (simp add: next_list_state len i0)
    have sel: "fst (state_of (List_select 1 (fst ?d) (snd ?d))) =
        fst (state_of (List_select 1 L w))"
      by (simp add: select_list_state d1)
    have l: "fst (state_of (frag_handler (List_get_text L ! 1) MOUSE_UP L w)) =
        fst (presses fp fn [Down, Enter] (L, w))"
    proof -
      have ix: "index (fst ?d) = 1" by (simp add: d1)
      show ?thesis
        using mouse_handler_select [of 1 L L w] sel by (simp add: len List_key_def ix)
    qed
    have "state_of (frag_handler (List_get_text L ! 1) MOUSE_UP L w) =
           presses fp fn [Down, Enter] (L, w)"
      if nf: "on_focus (elements L ! 1) = None"
    proof -
      have "List_next L w = Returned () (L\<lparr>index := 1, cursor := Point 0 1\<rparr>, w)"
        using nf by (simp add: List_next_def len i0 focus_in_range call_if_set_def)
      then show ?thesis
        using mouse_handler_select [of 1 L L w]
        by (simp add: len List_key_def select_in_range)
    qed
    with l show ?thesis by simp
  qed
  from m s show ?thesis by simp
qed

theorem mouse_up_is_select_witness:
  "(1::nat) < length (elements abc) \<and>
   frag_handler (List_get_text abc ! 1) MOUSE_UP abc (0, 0) = List_select 1 abc (0, 0) \<and>
   map elem_text (elements abc) = [''A'', ''B'', ''C''] \<and> index abc = 0 \<and>
   fst (presses count_focus count_focus [Down, Enter] (abc, (0, 0))) =
     abc\<lparr>index := 1, selected := 1, cursor := Point 0 1\<rparr>"
proof -
  have a: "(1::nat) < length (elements abc)"
    and b: "map elem_text (elements abc) = [''A'', ''B'', ''C'']" and c: "index abc = 0"
    by (simp_all add: abc_def List_init_def row_def)
  from mouse_up_is_select [of abc abc "(0, 0)" count_focus count_focus] a b c
  have "frag_handler (List_get_text abc ! 1) MOUSE_UP abc (0, 0) = List_select 1 abc (0, 0)"
    and "fst (state_of (frag_handler (List_get_text abc ! 1) MOUSE_UP abc (0, 0))) =
        fst (presses count_focus count_focus [Down, Enter] (abc, (0, 0)))"
    by auto
  then show ?thesis
    using a b c by (simp add: select_list_state)
qed

text \<open>The line feeds in the first \<open>k\<close> rows of the rendered text.\<close>

lemma separators_from:
  "k \<le> length (elements L) \<Longrightarrow>
   sum_list (map (\<lambda>i. count_list (frag_text (List_get_text L ! i)) newline) [0..<k]) =
     (if k \<le> length (elements L) - 1 then k else length (elements L) - 1)"
proof (induction k)
  case 0
  then show ?case by simp
next
  case (Suc k)
  then have "k < length (elements L)" by simp
  from get_text_text [OF this] Suc show ?case
    by auto
qed

text \<open>
  C9. For a list of \<open>N \<ge> 1\<close> rows, \<open>_get_text\<close> yields \<open>N\<close> fragments; the text of
  fragment \<open>i\<close> is row \<open>i\<close>'s text with its own line feeds turned into spaces, followed
  by one line feed unless \<open>i\<close> is the last row; so the whole output holds exactly
  \<open>N - 1\<close> line feeds.
\<close>

theorem render_inserts_separators:
  assumes "elements L \<noteq> []"
  shows "length (List_get_text L) = length (elements L) \<and>
         (\<forall>i < length (elements L).
            frag_text (List_get_text L ! i) =
              replace_newlines (elem_text (elements L ! i)) @
              (if i < length (elements L) - 1 then [newline] else [])) \<and>
         sum_list (map (\<lambda>fr. count_list (frag_text fr) newline) (List_get_text L)) =
           length (elements L) - 1"
proof -
  have "map (\<lambda>fr. count_list (frag_text fr) newline) (List_get_text L) =
      map (\<lambda>i. count_list (frag_text (List_get_text L ! i)) newline) [0..<length (elements L)]"
    by (rule nth_equalityI) simp_all
  with separators_from [of "length (elements L)" L] assms
  have "sum_list (map (\<lambda>fr. count_list (frag_text fr) newline) (List_get_text L)) =
           length (elements L) - 1"
    by (cases "elements L") simp_all
  then show ?thesis
    by (simp add: get_text_text)
qed

theorem render_inserts_separators_witness:
  "elements abc \<noteq> [] \<and>
   length (List_get_text abc) = 3 \<and>
   frag_text (List_get_text abc ! 0) = ''A'' @ [newline] \<and>
   frag_text (List_get_text abc ! 2) = ''C'' \<and>
   sum_list (map (\<lambda>fr. count_list (frag_text fr) newline) (List_get_text abc)) = 2"
proof -
  have a: "elements abc \<noteq> []" and n: "length (elements abc) = 3"
    and t: "elem_text (elements abc ! 0) = ''A''" "elem_text (elements abc ! 2) = ''C''"
    by (simp_all add: abc_def List_init_def row_def)
  have r: "replace_newlines ''A'' = ''A''" "replace_newlines ''C'' = ''C''"
    by (simp_all add: replace_newlines_def newline_def)
  from render_inserts_separators [OF a] have
    "length (List_get_text abc) = 3"
    "frag_text (List_get_text abc ! 0) = ''A'' @ [newline]"
    "frag_text (List_get_text abc ! 2) = ''C''"
    "sum_list (map (\<lambda>fr. count_list (frag_text fr) newline) (List_get_text abc)) = 2"
    by (simp_all add: n t r)
  with a show ?thesis by simp
qed

section \<open>Properties of get_label\<close>

lemma styles_Paragraph: "styles ''Paragraph'' = Some ''#fff''"
  by (simp add: styles_def)

lemma styles_Literal: "styles ''Literal'' = Some ''#fff''"
  by (simp add: styles_def)

lemma dom_styles:
  "dom styles = {''Text'', ''Strong'', ''Emphasis'', ''Literal'', ''Paragraph'', ''CodeBlock'',
                 ''Prompt'', ''TestBlock'', ''Section'', ''Separator''}"
  unfolding styles_def dom_map_of_conv_image_fst by simp

lemma get_label_loop_known:
  "\<forall>n \<in> set ns. styles (tagname n) \<noteq> None \<Longrightarrow>
   get_label_loop tft ns acc = Inr (acc @ concat (map (node_spans tft) ns))"
  by (induction ns arbitrary: acc) (auto simp: node_spans_def)





text \<open>
  C7. In a section whose tags are all in the style table, the span of a node tagged
  \<open>Paragraph\<close> is followed at once by the line-break span \<open>to_formatted_text("\n", "")\<close>,
  between the spans of the nodes before it and those of the nodes after it. A paragraph
  followed by a literal gives the paragraph span, the line break, the literal span.
\<close>

theorem paragraph_then_line_break:
  "((\<forall>m \<in> set (pre @ n # post). tagname m \<in> dom styles) \<and> tagname n = ''Paragraph'' \<longrightarrow>
      (\<exists>a b. get_label tft pre = Inr a \<and> get_label tft post = Inr b \<and>
         get_label tft (pre @ n # post) =
           Inr (a @ [tft (node_text n) ''#fff'', tft [newline] []] @ b))) \<and>
   get_label tft [\<lparr>tagname = ''Paragraph'', node_text = p\<rparr>,
                  \<lparr>tagname = ''Literal'', node_text = l\<rparr>] =
     Inr [tft p ''#fff'', tft [newline] [], tft l ''#fff'']"
proof -
  have "\<exists>a b. get_label tft pre = Inr a \<and> get_label tft post = Inr b \<and>
         get_label tft (pre @ n # post) =
           Inr (a @ [tft (node_text n) ''#fff'', tft [newline] []] @ b)"
    if k: "\<forall>m \<in> set (pre @ n # post). tagname m \<in> dom styles"
      and p: "tagname n = ''Paragraph''"
  proof -
    from k have all: "\<forall>m \<in> set (pre @ n # post). styles (tagname m) \<noteq> None"
      by (simp add: domIff)
    then have 1: "\<forall>m \<in> set pre. styles (tagname m) \<noteq> None"
      and 2: "\<forall>m \<in> set post. styles (tagname m) \<noteq> None" by simp_all
    have "node_spans tft n = [tft (node_text n) ''#fff'', tft [newline] []]"
      by (simp add: node_spans_def p styles_Paragraph)
    then show ?thesis
      using get_label_loop_known [OF all, of tft "[]"] get_label_loop_known [OF 1, of tft "[]"]
        get_label_loop_known [OF 2, of tft "[]"]
      by (simp add: get_label_def)
  qed
  moreover have "get_label tft [\<lparr>tagname = ''Paragraph'', node_text = p\<rparr>,
                  \<lparr>tagname = ''Literal'', node_text = l\<rparr>] =
     Inr [tft p ''#fff'', tft [newline] [], tft l ''#fff'']"
    by (simp add: get_label_def styles_Paragraph styles_Literal)
  ultimately show ?thesis by blast
qed

theorem paragraph_then_line_break_witness:
  "tagname lit \<in> dom styles \<and> tagname para \<in> dom styles \<and>
   tagname para = ''Paragraph'' \<and>
   get_label Pair ([lit] @ para # [lit]) =
     Inr ([(''x = 1'', ''#fff'')] @ [(''Hello.'', ''#fff''), ([newline], [])] @
          [(''x = 1'', ''#fff'')])"
proof -
  have a: "tagname lit \<in> dom styles" "tagname para \<in> dom styles"
    by (simp_all add: para_def lit_def dom_styles)
  have b: "tagname para = ''Paragraph''" by (simp add: para_def)
  have c: "get_label Pair [lit] = Inr [(''x = 1'', ''#fff'')]"
    by (simp add: get_label_def lit_def styles_Literal)
  from paragraph_then_line_break [of "[lit]" para "[lit]" Pair] a b c
  have "get_label Pair ([lit] @ para # [lit]) =
     Inr ([(''x = 1'', ''#fff'')] @ [(node_text para, ''#fff''), ([newline], [])] @
          [(''x = 1'', ''#fff'')])"
    by auto
  with a b show ?thesis
    by (simp add: para_def)
qed

end
